theory Spec2Isabelle
  imports Complex_Main "HOL-Library.AList" "HOL-Library.Char_ord" "HOL-Library.List_Lexorder"
    "HOL-Library.Sublist"
begin

section \<open>Parsed documents\<close>

text \<open>
  The analyzer works on the value that \<^verbatim>\<open>json.load\<close> returns: \<^verbatim>\<open>None\<close>, a \<^verbatim>\<open>bool\<close>, an
  \<^verbatim>\<open>int\<close>, a \<^verbatim>\<open>float\<close>, a \<^verbatim>\<open>str\<close>, a \<^verbatim>\<open>list\<close> or a \<^verbatim>\<open>dict\<close>. A \<^verbatim>\<open>dict\<close> is kept as the
  list of its items in iteration order, which is the order \<^verbatim>\<open>data.items()\<close> yields.
\<close>

datatype json =
    JNull
  | JBool bool
  | JInt int
  | JFloat real
  | JStr string
  | JList "json list"
  | JDict "(string \<times> json) list"

text \<open>\<^verbatim>\<open>type(value).__name__\<close>\<close>

fun type_name :: "json \<Rightarrow> string" where
  "type_name JNull = ''NoneType''"
| "type_name (JBool b) = ''bool''"
| "type_name (JInt i) = ''int''"
| "type_name (JFloat x) = ''float''"
| "type_name (JStr s) = ''str''"
| "type_name (JList xs) = ''list''"
| "type_name (JDict kvs) = ''dict''"

text \<open>\<^verbatim>\<open>isinstance(value, (dict, list))\<close>\<close>

fun is_container :: "json \<Rightarrow> bool" where
  "is_container (JList xs) = True"
| "is_container (JDict kvs) = True"
| "is_container v = False"

section \<open>The recursive walk: \<^verbatim>\<open>analyze_json_structure\<close>\<close>

text \<open>
  One entry of \<^verbatim>\<open>result["fields"]\<close>: the keys \<^verbatim>\<open>"path"\<close>, \<^verbatim>\<open>"type"\<close> and \<^verbatim>\<open>"level"\<close>.
\<close>

record field_info =
  f_path :: string
  f_type :: string
  f_level :: nat

text \<open>
  The accumulator \<^verbatim>\<open>result\<close>: the keys \<^verbatim>\<open>"fields"\<close>, \<^verbatim>\<open>"types"\<close> and \<^verbatim>\<open>"max_level"\<close>.
  \<^verbatim>\<open>"types"\<close> is a \<^verbatim>\<open>defaultdict(int)\<close>, kept as the list of its items in insertion order.
\<close>

record result =
  res_fields :: "field_info list"
  res_types :: "(string \<times> nat) list"
  max_level :: nat

text \<open>
  \<^verbatim>\<open>d.get(k, dflt)\<close> on a dictionary kept as its item list. Storing under a key is
  \<^const>\<open>AList.update\<close>: an existing key keeps its position, a new key goes to the end.
\<close>

definition getd :: "('k \<times> 'v) list \<Rightarrow> 'k \<Rightarrow> 'v \<Rightarrow> 'v" where
  "getd d k dflt = (case map_of d k of None \<Rightarrow> dflt | Some v \<Rightarrow> v)"

text \<open>\<^verbatim>\<open>result["types"][k] += 1\<close> on the \<^verbatim>\<open>defaultdict(int)\<close>\<close>

definition incr :: "string \<Rightarrow> (string \<times> nat) list \<Rightarrow> (string \<times> nat) list" where
  "incr k d = AList.update k (getd d k 0 + 1) d"

text \<open>The dictionary built when \<^verbatim>\<open>result is None\<close>.\<close>

definition new_result :: result where
  "new_result = \<lparr>res_fields = [], res_types = [], max_level = 0\<rparr>"

text \<open>
  \<^verbatim>\<open>
  def analyze_json_structure(data, path="", result=None, level=0):
      ...
      result["max_level"] = max(result["max_level"], level)
      if isinstance(data, dict):
          for key, value in data.items():
              current_path = f"{path}.{key}" if path else key
              field_info = {"path": current_path, "type": type(value).__name__, "level": level}
              result["fields"].append(field_info)
              result["types"][type(value).__name__] += 1
              if isinstance(value, (dict, list)):
                  analyze_json_structure(value, current_path, result, level + 1)
      elif isinstance(data, list):
          result["types"]["list"] += 1
          if data:
              sample_item = data[0]
              sample_path = f"{path}[0]"
              field_info = {"path": sample_path, "type": type(sample_item).__name__, "level": level}
              result["fields"].append(field_info)
              if isinstance(sample_item, (dict, list)):
                  analyze_json_structure(sample_item, sample_path, result, level + 1)
      return result
  \<close>
  The shared mutable \<^verbatim>\<open>result\<close> is threaded through the calls; the \<^verbatim>\<open>for\<close> loop over the
  items is a \<^const>\<open>fold\<close>. The function has no \<^verbatim>\<open>raise\<close> and no partial operation
  (\<^verbatim>\<open>data[0]\<close> is guarded by \<^verbatim>\<open>if data\<close>), so the model has no error value.
\<close>

fun analyze_json_structure :: "json \<Rightarrow> string \<Rightarrow> result \<Rightarrow> nat \<Rightarrow> result" where
  "analyze_json_structure (JDict kvs) path result0 level =
     fold (\<lambda>(key, v) res.
        let current_path = (if path \<noteq> [] then path @ ''.'' @ key else key);
            res1 = res\<lparr>res_fields := res_fields res @
                     [\<lparr>f_path = current_path, f_type = type_name v, f_level = level\<rparr>]\<rparr>;
            res2 = res1\<lparr>res_types := incr (type_name v) (res_types res1)\<rparr>
        in if is_container v then analyze_json_structure v current_path res2 (level + 1) else res2)
      kvs (result0\<lparr>max_level := max (max_level result0) level\<rparr>)"
| "analyze_json_structure (JList xs) path result0 level =
     (let res0 = result0\<lparr>max_level := max (max_level result0) level\<rparr>;
          res1 = res0\<lparr>res_types := incr ''list'' (res_types res0)\<rparr>
      in case xs of
           [] \<Rightarrow> res1
         | sample_item # rest \<Rightarrow>
             let sample_path = path @ ''[0]'';
                 res2 = res1\<lparr>res_fields := res_fields res1 @
                          [\<lparr>f_path = sample_path, f_type = type_name sample_item, f_level = level\<rparr>]\<rparr>
             in if is_container sample_item
                then analyze_json_structure sample_item sample_path res2 (level + 1)
                else res2)"
| "analyze_json_structure v path result0 level = result0\<lparr>max_level := max (max_level result0) level\<rparr>"

text \<open>The body of the \<^verbatim>\<open>for key, value in data.items()\<close> loop, under a name of its own.\<close>

definition visit_item :: "string \<Rightarrow> nat \<Rightarrow> string \<times> json \<Rightarrow> result \<Rightarrow> result" where
  "visit_item path level =
     (\<lambda>(key, v) res.
        let current_path = (if path \<noteq> [] then path @ ''.'' @ key else key);
            res1 = res\<lparr>res_fields := res_fields res @
                     [\<lparr>f_path = current_path, f_type = type_name v, f_level = level\<rparr>]\<rparr>;
            res2 = res1\<lparr>res_types := incr (type_name v) (res_types res1)\<rparr>
        in if is_container v then analyze_json_structure v current_path res2 (level + 1) else res2)"

text \<open>The call \<^verbatim>\<open>analyze_json_structure(data)\<close> with the default arguments.\<close>

definition analyze_root :: "json \<Rightarrow> result" where
  "analyze_root data = analyze_json_structure data [] new_result 0"

section \<open>Folding the documents of a folder: \<^verbatim>\<open>analys_json_folder\<close>\<close>

text \<open>
  \<^verbatim>\<open>field_types\<close> has the shape \<^verbatim>\<open>{path: {type: [file titles]}}\<close>; both levels are
  dictionaries kept as item lists.
\<close>

type_synonym type_files = "(string \<times> string list) list"
type_synonym field_index = "(string \<times> type_files) list"

text \<open>
  One file found by the \<^verbatim>\<open>glob\<close>. Reading the file system is outside the model, so a file
  is given by its path, by the title \<^verbatim>\<open>os.path.splitext(os.path.basename(json_file))[0]\<close>
  and by what \<^verbatim>\<open>open\<close> followed by \<^verbatim>\<open>json.load\<close> yields: \<^term>\<open>Some data\<close>, or \<^term>\<open>None\<close>
  when the \<^verbatim>\<open>try\<close> body raises before it has data to record.
\<close>

record json_file =
  file_name :: string
  file_title :: string
  loaded :: "json option"

text \<open>The lines the function prints, one constructor for each \<^verbatim>\<open>print\<close>.\<close>

datatype message =
    No_Json_Found
  | Found_Files nat
  | Analyzed string
  | File_Error string
  | Report_Saved

record folder_state =
  field_types :: field_index
  all_files :: "string list"
  printed :: "message list"

text \<open>
  \<^verbatim>\<open>
  field_path = field_info["path"]
  field_type = field_info["type"]
  if field_path not in field_types:
      field_types[field_path] = {}
  if field_type not in field_types[field_path]:
      field_types[field_path][field_type] = []
  field_types[field_path][field_type].append(file_title)
  \<close>
\<close>

definition record_field :: "string \<Rightarrow> field_info \<Rightarrow> field_index \<Rightarrow> field_index" where
  "record_field title fi ft =
     (let field_path = f_path fi;
          field_type = f_type fi;
          ft1 = (if map_of ft field_path = None then AList.update field_path [] ft else ft);
          tys = getd ft1 field_path [];
          tys1 = (if map_of tys field_type = None then AList.update field_type [] tys else tys);
          files = getd tys1 field_type []
      in AList.update field_path (AList.update field_type (files @ [title]) tys1) ft1)"

text \<open>
  One round of the loop \<^verbatim>\<open>for json_file in json_files\<close>. Everything that can raise
  (\<^verbatim>\<open>open\<close>, \<^verbatim>\<open>json.load\<close>, the walk itself on a tree too deep for the interpreter) comes before the first change to \<^verbatim>\<open>all_files\<close> and
  \<^verbatim>\<open>field_types\<close>, so the \<^verbatim>\<open>except Exception\<close> branch starts from the state the round began with
  and only prints.
\<close>

definition process_file :: "json_file \<Rightarrow> folder_state \<Rightarrow> folder_state" where
  "process_file jf st =
     (case loaded jf of
        None \<Rightarrow> st\<lparr>printed := printed st @ [File_Error (file_name jf)]\<rparr>
      | Some data \<Rightarrow>
          let file_result = analyze_root data
          in \<lparr>field_types = fold (record_field (file_title jf)) (res_fields file_result) (field_types st),
              all_files = all_files st @ [file_title jf],
              printed = printed st @ [Analyzed (file_name jf)]\<rparr>)"

section \<open>The field report: \<^verbatim>\<open>generate_field_consistency_report\<close>\<close>

text \<open>
  The function returns Markdown text. The model keeps what the text is computed from and
  leaves the rendering out: the early return for an empty index is \<open>No_Field_Info\<close>, the
  counts of the overview, one row for each path in sorted order, and one detail section for
  each inconsistent path. The file column of a row is \<open>All_Files n\<close> when the file list of
  the one type has the length \<open>n\<close> of \<^verbatim>\<open>all_files\<close>, \<open>Some_Files\<close> with the names shown and
  their number otherwise, and \<open>Per_Type\<close> for an inconsistent path.
\<close>

datatype file_info =
    All_Files nat
  | Some_Files "string list" nat
  | Per_Type "(string \<times> string list \<times> nat) list"

record report_row =
  row_level :: nat
  row_path :: string
  row_type_info :: "string list"
  row_is_consistent :: bool
  row_file_info :: file_info

record detail_section =
  detail_path :: string
  detail_level :: nat
  detail_types :: type_files

record field_summary =
  total_files :: nat
  total_fields :: nat
  consistent_count :: nat
  inconsistent_count :: nat
  rows :: "report_row list"
  details :: "detail_section list"

datatype field_report = No_Field_Info | Field_Report field_summary

text \<open>\<^verbatim>\<open>[path for path, types in field_types.items() if len(types) > 1]\<close>\<close>

definition inconsistent_fields :: "field_index \<Rightarrow> string list" where
  "inconsistent_fields ft = map fst (filter (\<lambda>(p, tys). length tys > 1) ft)"

text \<open>The names shown for a file list (\<^verbatim>\<open>files[:2]\<close> when there are more than two) and its length.\<close>

definition file_example :: "string list \<Rightarrow> string list \<times> nat" where
  "file_example files = (if length files > 2 then (take 2 files, length files) else (files, length files))"

text \<open>
  One round of \<^verbatim>\<open>for field_path in sorted_fields\<close>: \<^verbatim>\<open>is_consistent = len(types) == 1\<close>,
  \<^verbatim>\<open>level = field_path.count(".")\<close>, and \<^verbatim>\<open>list(types.values())[0]\<close> read only when
  \<^verbatim>\<open>types\<close> has exactly one item.
\<close>

definition make_row :: "field_index \<Rightarrow> nat \<Rightarrow> string \<Rightarrow> report_row" where
  "make_row ft n field_path =
     (let tys = getd ft field_path [];
          is_consistent = (length tys = 1);
          lvl = count_list field_path (CHR ''.'');
          info = (if is_consistent then
                    (let files = hd (map snd tys)
                     in if length files = n then All_Files n
                        else Some_Files (fst (file_example files)) (snd (file_example files)))
                  else Per_Type (map (\<lambda>(t, files). (t, file_example files)) tys))
      in \<lparr>row_level = lvl, row_path = field_path, row_type_info = map fst tys,
          row_is_consistent = is_consistent, row_file_info = info\<rparr>)"

definition make_detail :: "field_index \<Rightarrow> string \<Rightarrow> detail_section" where
  "make_detail ft field_path =
     \<lparr>detail_path = field_path, detail_level = count_list field_path (CHR ''.''),
      detail_types = getd ft field_path []\<rparr>"

definition generate_field_consistency_report :: "field_index \<Rightarrow> string list \<Rightarrow> field_report" where
  "generate_field_consistency_report ft files =
     (if ft = [] then No_Field_Info
      else Field_Report
        \<lparr>total_files = length files,
         total_fields = length ft,
         consistent_count = length ft - length (inconsistent_fields ft),
         inconsistent_count = length (inconsistent_fields ft),
         rows = map (make_row ft (length files)) (sort (map fst ft)),
         details = map (make_detail ft) (inconsistent_fields ft)\<rparr>)"

text \<open>
  What \<^verbatim>\<open>analys_json_folder\<close> leaves behind: the printed lines and the report written to
  \<^verbatim>\<open>field_consistency_analysis.md\<close>, if any. With no file in the folder it prints and returns
  before the loop. The model covers the runs in which the output directory can be made and the
  report file can be opened and written: these calls are outside every \<^verbatim>\<open>try\<close>, and where one of
  them raises the function ends there, after the report has been computed.
\<close>

record folder_outcome =
  messages :: "message list"
  written :: "field_report option"

definition analys_json_folder :: "json_file list \<Rightarrow> folder_outcome" where
  "analys_json_folder json_files =
     (if json_files = [] then \<lparr>messages = [No_Json_Found], written = None\<rparr>
      else
        let st = fold process_file json_files
                   \<lparr>field_types = [], all_files = [], printed = [Found_Files (length json_files)]\<rparr>
        in \<lparr>messages = printed st @ [Report_Saved],
            written = Some (generate_field_consistency_report (field_types st) (all_files st))\<rparr>)"

section \<open>The structure comparison: \<^verbatim>\<open>analyze_consistency\<close>\<close>

text \<open>\<^verbatim>\<open>all_results\<close> maps a file to its walk result; it is kept as its item list.\<close>

type_synonym all_results = "(string \<times> result) list"

text \<open>\<^verbatim>\<open>{file: result["max_level"] for file, result in all_results.items()}\<close>\<close>

definition max_levels :: "all_results \<Rightarrow> (string \<times> nat) list" where
  "max_levels rs = map (\<lambda>(file, r). (file, max_level r)) rs"

text \<open>\<^verbatim>\<open>len(set(max_levels.values())) == 1\<close>\<close>

definition is_level_consistent :: "all_results \<Rightarrow> bool" where
  "is_level_consistent rs = (card (set (map snd (max_levels rs))) = 1)"

text \<open>\<^verbatim>\<open>list(max_levels.values())[0] if is_level_consistent else None\<close>\<close>

definition consistent_level :: "all_results \<Rightarrow> nat option" where
  "consistent_level rs =
     (if is_level_consistent rs
      then (case map snd (max_levels rs) of [] \<Rightarrow> None | l # _ \<Rightarrow> Some l)
      else None)"

definition type_stats :: "all_results \<Rightarrow> (string \<times> (string \<times> nat) list) list" where
  "type_stats rs = map (\<lambda>(file, r). (file, res_types r)) rs"

text \<open>The set built by \<^verbatim>\<open>all_types.update(types.keys())\<close> over all files.\<close>

definition all_types :: "all_results \<Rightarrow> string set" where
  "all_types rs = (\<Union>tys \<in> set (map snd (type_stats rs)). set (map fst tys))"

text \<open>\<^verbatim>\<open>type_counts[type_name][file] = types.get(type_name, 0)\<close>\<close>

definition type_counts :: "all_results \<Rightarrow> string \<Rightarrow> (string \<times> nat) list" where
  "type_counts rs t = map (\<lambda>(file, tys). (file, getd tys t 0)) (type_stats rs)"

text \<open>
  \<^verbatim>\<open>type_consistency\<close> has a key for each member of \<^verbatim>\<open>all_types\<close>; it starts as \<^verbatim>\<open>True\<close> and is
  set to \<^verbatim>\<open>False\<close> when \<^verbatim>\<open>len(set(counts.values())) > 1\<close>.
\<close>

definition type_consistency :: "all_results \<Rightarrow> string \<Rightarrow> bool option" where
  "type_consistency rs t =
     (if t \<in> all_types rs
      then Some (\<not> card (set (map snd (type_counts rs t))) > 1)
      else None)"

text \<open>
  As for the field report, the model keeps the data of the Markdown text: the early return
  for no results is \<open>No_Results\<close>; the table of types has one row for each member of
  \<^verbatim>\<open>sorted(all_types)\<close>, and the conclusion is
  \<^verbatim>\<open>is_level_consistent and all(type_consistency.values())\<close>. The closing list of
  inconsistent items repeats the flags of the rows and is left out.
\<close>

record batch_summary =
  n_files :: nat
  levels_consistent :: bool
  common_level :: "nat option"
  per_file_levels :: "(string \<times> nat) list"
  type_rows :: "(string \<times> bool \<times> (string \<times> nat) list) list"
  fully_consistent :: bool

datatype consistency_report = No_Results | Consistency_Report batch_summary

definition analyze_consistency :: "all_results \<Rightarrow> consistency_report" where
  "analyze_consistency rs =
     (if rs = [] then No_Results
      else Consistency_Report
        \<lparr>n_files = length rs,
         levels_consistent = is_level_consistent rs,
         common_level = consistent_level rs,
         per_file_levels = max_levels rs,
         type_rows = map (\<lambda>t. (t, type_consistency rs t = Some True, type_counts rs t))
                       (sorted_list_of_set (all_types rs)),
         fully_consistent =
           (is_level_consistent rs \<and>
            list_all (\<lambda>t. type_consistency rs t = Some True) (sorted_list_of_set (all_types rs)))\<rparr>)"

section \<open>Reference notions used to state the properties\<close>

fun maximum :: "nat list \<Rightarrow> nat" where
  "maximum [] = 0"
| "maximum (n # ns) = max n (maximum ns)"

text \<open>
  The nesting depth along the places the walk visits: the values of a mapping and the first
  element of a sequence, each nested container one level below the container holding it.
\<close>

fun walk_depth :: "json \<Rightarrow> nat" where
  "walk_depth (JDict kvs) =
     maximum (map (\<lambda>(key, v). if is_container v then Suc (walk_depth v) else 0) kvs)"
| "walk_depth (JList []) = 0"
| "walk_depth (JList (x # xs)) = (if is_container x then Suc (walk_depth x) else 0)"
| "walk_depth v = 0"

fun is_dict :: "json \<Rightarrow> bool" where
  "is_dict (JDict kvs) = True"
| "is_dict v = False"

text \<open>
  The depth in the words of the specification: the largest number of mapping boundaries
  crossed on the way from the root to any place of the tree, where a sequence adds nothing
  and every element of a sequence counts.
\<close>

fun mapping_depth :: "json \<Rightarrow> nat" where
  "mapping_depth (JDict kvs) =
     maximum (map (\<lambda>(key, v). (if is_dict v then 1 else 0) + mapping_depth v) kvs)"
| "mapping_depth (JList xs) =
     maximum (map (\<lambda>v. (if is_dict v then 1 else 0) + mapping_depth v) xs)"
| "mapping_depth v = 0"

text \<open>Trees without any sequence.\<close>

fun list_free :: "json \<Rightarrow> bool" where
  "list_free (JDict kvs) = list_all (\<lambda>(key, v). list_free v) kvs"
| "list_free (JList xs) = False"
| "list_free v = True"

text \<open>
  All observations of a batch, and the kinds observed for a path anywhere in the batch. A
  file that did not load has no observations.
\<close>

definition observations :: "json_file list \<Rightarrow> field_info list" where
  "observations json_files =
     concat (map (\<lambda>jf. case loaded jf of None \<Rightarrow> [] | Some data \<Rightarrow> res_fields (analyze_root data))
                 json_files)"

definition observed_kinds :: "json_file list \<Rightarrow> string \<Rightarrow> string set" where
  "observed_kinds json_files p =
     set (map f_type (filter (\<lambda>fi. f_path fi = p) (observations json_files)))"


text \<open>The kinds recorded for a path in the index: the keys of \<^verbatim>\<open>field_types[p]\<close>, none for a path that is no key.\<close>

definition kinds_at :: "field_index \<Rightarrow> string \<Rightarrow> string list" where
  "kinds_at ft p = map fst (getd ft p [])"

text \<open>The two documents of the scenario of the specification.\<close>

definition doc_A :: json where
  "doc_A = JDict [(''a'', JInt 1), (''b'', JList [JDict [(''c'', JStr ''x'')]])]"

definition doc_B :: json where
  "doc_B = JDict [(''a'', JInt 2), (''b'', JList [JDict [(''c'', JInt 3)]])]"

section \<open>Basic facts about the walk\<close>

lemma analyze_dict:
  "analyze_json_structure (JDict kvs) path r level =
     fold (visit_item path level) kvs (r\<lparr>max_level := max (max_level r) level\<rparr>)"
  by (simp add: visit_item_def)

declare analyze_json_structure.simps(1) [simp del]

lemma visit_item_simp:
  "visit_item path level (key, v) r =
     (let r2 = r\<lparr>res_fields := res_fields r @
                   [\<lparr>f_path = (if path \<noteq> [] then path @ ''.'' @ key else key),
                     f_type = type_name v, f_level = level\<rparr>],
                 res_types := incr (type_name v) (res_types r)\<rparr>
      in if is_container v
         then analyze_json_structure v (if path \<noteq> [] then path @ ''.'' @ key else key) r2 (level + 1)
         else r2)"
  by (simp add: visit_item_def Let_def)

lemma getd_incr_same: "getd (incr k d) k 0 = getd d k 0 + 1"
  by (simp add: incr_def getd_def update_conv')

lemma getd_incr_other: "k' \<noteq> k \<Longrightarrow> getd (incr k d) k' dflt = getd d k' dflt"
  by (simp add: incr_def getd_def update_conv')

lemma list_branch_empty:
  "analyze_json_structure (JList []) path r level =
     r\<lparr>res_types := incr ''list'' (res_types r), max_level := max (max_level r) level\<rparr>"
  by simp

lemma list_branch_sample:
  "analyze_json_structure (JList (x # xs)) path r level =
     (let r1 = r\<lparr>max_level := max (max_level r) level,
                 res_types := incr ''list'' (res_types r),
                 res_fields := res_fields r @
                   [\<lparr>f_path = path @ ''[0]'', f_type = type_name x, f_level = level\<rparr>]\<rparr>
      in if is_container x then analyze_json_structure x (path @ ''[0]'') r1 (level + 1) else r1)"
  by (simp add: Let_def)

section \<open>The reported depth\<close>

lemma dict_loop_max_level:
  assumes IH: "\<And>key v p r l. (key, v) \<in> set kvs \<Longrightarrow> is_container v \<Longrightarrow>
                 max_level (analyze_json_structure v p r l) = max (max_level r) (l + walk_depth v)"
    and lv: "level \<le> max_level r"
  shows "max_level (fold (visit_item path level) kvs r) =
           max (max_level r)
               (level + maximum (map (\<lambda>(key, v). if is_container v then Suc (walk_depth v) else 0) kvs))"
  using IH lv
proof (induction kvs arbitrary: r)
  case Nil
  then show ?case by simp
next
  case (Cons kv kvs)
  obtain key v where kv: "kv = (key, v)" by (cases kv)
  have step: "\<And>p r l. is_container v \<Longrightarrow>
                 max_level (analyze_json_structure v p r l) = max (max_level r) (l + walk_depth v)"
    using Cons.prems(1)[of key v] kv by simp
  have rest: "\<And>key v p r l. (key, v) \<in> set kvs \<Longrightarrow> is_container v \<Longrightarrow>
                 max_level (analyze_json_structure v p r l) = max (max_level r) (l + walk_depth v)"
    by (rule Cons.prems(1)) auto
  have le: "level \<le> max_level (visit_item path level (key, v) r)"
    using Cons.prems(2) by (simp add: visit_item_simp Let_def step le_max_iff_disj)
  have "max_level (visit_item path level (key, v) r) =
          max (max_level r) (if is_container v then level + Suc (walk_depth v) else 0)"
    by (simp add: visit_item_simp Let_def step)
  then show ?case
    using Cons.prems(2) by (simp add: kv Cons.IH[OF rest le] nat_add_max_right max.assoc)
qed

lemma max_level_general:
  "max_level (analyze_json_structure data path r level) = max (max_level r) (level + walk_depth data)"
proof (induction data arbitrary: path r level)
  case (JDict kvs)
  have IH: "\<And>key v p r l. (key, v) \<in> set kvs \<Longrightarrow> is_container v \<Longrightarrow>
                 max_level (analyze_json_structure v p r l) = max (max_level r) (l + walk_depth v)"
    using JDict.IH by force
  show ?case
    unfolding analyze_dict walk_depth.simps
    by (subst dict_loop_max_level[OF IH]) (simp_all add: nat_add_max_right max.assoc)
next
  case (JList xs)
  then show ?case by (cases xs) (simp_all add: Let_def nat_add_max_right max.assoc)
qed simp_all

lemma list_free_container: "list_free v \<Longrightarrow> is_container v = is_dict v"
  by (cases v) simp_all

lemma list_free_scalar: "list_free v \<Longrightarrow> \<not> is_dict v \<Longrightarrow> mapping_depth v = 0"
  by (cases v) simp_all

lemma list_free_depth: "list_free data \<Longrightarrow> walk_depth data = mapping_depth data"
proof (induction data)
  case (JDict kvs)
  have "\<And>key v. (key, v) \<in> set kvs \<Longrightarrow> list_free v"
    using JDict.prems by (auto simp: list_all_iff)
  moreover have "\<And>key v. (key, v) \<in> set kvs \<Longrightarrow> list_free v \<Longrightarrow> walk_depth v = mapping_depth v"
    using JDict.IH by force
  ultimately have "map (\<lambda>(key, v). if is_container v then Suc (walk_depth v) else 0) kvs
      = map (\<lambda>(key, v). (if is_dict v then 1 else 0) + mapping_depth v) kvs"
    apply (intro map_cong refl)
    subgoal for kv by (cases kv) (simp add: list_free_container list_free_scalar)
    done
  then show ?case by (simp cong: map_cong)
qed simp_all

section \<open>Kind counts of a walk are positive\<close>









section \<open>The paths of the observations a call appends\<close>

lemma strict_prefix_step: "strict_prefix (p @ s) q \<Longrightarrow> strict_prefix p q"
  by (metis append_prefixD prefix_order.dual_order.strict_iff_order prefix_order.dual_order.strict_trans1 prefixI same_prefix_nil self_append_conv strict_prefix_def)

lemma visit_item_fields:
  assumes IH: "\<And>p r l. \<exists>new. res_fields (analyze_json_structure v p r l) = res_fields r @ new \<and>
                  (p \<noteq> [] \<longrightarrow> list_all (\<lambda>f. strict_prefix p (f_path f)) new)"
  shows "\<exists>new. res_fields (visit_item path level (key, v) r) = res_fields r @ new \<and>
           (path \<noteq> [] \<longrightarrow> list_all (\<lambda>f. strict_prefix path (f_path f)) new)"
proof (cases "is_container v")
  case False
  then show ?thesis
    by (simp add: visit_item_simp Let_def strict_prefix_def)
next
  case True
  define cp where "cp = (if path \<noteq> [] then path @ ''.'' @ key else key)"
  define r2 where "r2 = r\<lparr>res_fields := res_fields r @ [\<lparr>f_path = cp, f_type = type_name v, f_level = level\<rparr>],
                           res_types := incr (type_name v) (res_types r)\<rparr>"
  obtain new where new: "res_fields (analyze_json_structure v cp r2 (level + 1)) = res_fields r2 @ new"
    and pre: "cp \<noteq> [] \<longrightarrow> list_all (\<lambda>f. strict_prefix cp (f_path f)) new"
    using IH[of cp r2 "level + 1"] by blast
  have v: "visit_item path level (key, v) r = analyze_json_structure v cp r2 (level + 1)"
    using True by (simp add: visit_item_simp Let_def cp_def r2_def)
  have "path \<noteq> [] \<longrightarrow> list_all (\<lambda>f. strict_prefix path (f_path f)) new"
  proof
    assume ne: "path \<noteq> []"
    then have cp: "cp = path @ (''.'' @ key)" by (simp add: cp_def)
    with pre have "list_all (\<lambda>f. strict_prefix (path @ (''.'' @ key)) (f_path f)) new" by simp
    then show "list_all (\<lambda>f. strict_prefix path (f_path f)) new"
      by (auto simp: list_all_iff intro: strict_prefix_step)
  qed
  moreover have "path \<noteq> [] \<longrightarrow> strict_prefix path cp"
    by (simp add: cp_def strict_prefix_def)
  ultimately show ?thesis
    unfolding v new by (intro exI[of _ "\<lparr>f_path = cp, f_type = type_name v, f_level = level\<rparr> # new"]) (simp add: r2_def)
qed

lemma dict_loop_fields:
  assumes IH: "\<And>v p r l. v \<in> snd ` set kvs \<Longrightarrow>
                 \<exists>new. res_fields (analyze_json_structure v p r l) = res_fields r @ new \<and>
                  (p \<noteq> [] \<longrightarrow> list_all (\<lambda>f. strict_prefix p (f_path f)) new)"
  shows "\<exists>new. res_fields (fold (visit_item path level) kvs r) = res_fields r @ new \<and>
           (path \<noteq> [] \<longrightarrow> list_all (\<lambda>f. strict_prefix path (f_path f)) new)"
  using IH
proof (induction kvs arbitrary: r)
  case Nil
  then show ?case by simp
next
  case (Cons kv kvs)
  obtain key v where kv: "kv = (key, v)" by (cases kv)
  have here: "\<And>p r l. \<exists>new. res_fields (analyze_json_structure v p r l) = res_fields r @ new \<and>
                  (p \<noteq> [] \<longrightarrow> list_all (\<lambda>f. strict_prefix p (f_path f)) new)"
    by (rule Cons.prems) (simp add: kv)
  have rest: "\<And>v p r l. v \<in> snd ` set kvs \<Longrightarrow>
                 \<exists>new. res_fields (analyze_json_structure v p r l) = res_fields r @ new \<and>
                  (p \<noteq> [] \<longrightarrow> list_all (\<lambda>f. strict_prefix p (f_path f)) new)"
    by (rule Cons.prems) auto
  obtain new1 where n1: "res_fields (visit_item path level (key, v) r) = res_fields r @ new1"
    and p1: "path \<noteq> [] \<longrightarrow> list_all (\<lambda>f. strict_prefix path (f_path f)) new1"
    using visit_item_fields[OF here] by blast
  obtain new2 where n2: "res_fields (fold (visit_item path level) kvs (visit_item path level (key, v) r)) =
                           res_fields (visit_item path level (key, v) r) @ new2"
    and p2: "path \<noteq> [] \<longrightarrow> list_all (\<lambda>f. strict_prefix path (f_path f)) new2"
    using Cons.IH[OF rest] by blast
  show ?case
    using n1 n2 p1 p2 by (intro exI[of _ "new1 @ new2"]) (simp add: kv)
qed

lemma walk_fields:
  "\<exists>new. res_fields (analyze_json_structure data path r level) = res_fields r @ new \<and>
         (path \<noteq> [] \<longrightarrow> list_all (\<lambda>f. strict_prefix path (f_path f)) new)"
proof (induction data arbitrary: path r level)
  case (JDict kvs)
  have IH: "\<And>v p r l. v \<in> snd ` set kvs \<Longrightarrow>
                 \<exists>new. res_fields (analyze_json_structure v p r l) = res_fields r @ new \<and>
                  (p \<noteq> [] \<longrightarrow> list_all (\<lambda>f. strict_prefix p (f_path f)) new)"
    using JDict.IH by force
  show ?case
    unfolding analyze_dict
    using dict_loop_fields[OF IH, where r = "r\<lparr>max_level := max (max_level r) level\<rparr>"]
    by simp
next
  case (JList xs)
  show ?case
  proof (cases xs)
    case Nil
    then show ?thesis by simp
  next
    case (Cons x rest)
    define sp where "sp = path @ ''[0]''"
    define r1 where "r1 = r\<lparr>max_level := max (max_level r) level,
                 res_types := incr ''list'' (res_types r),
                 res_fields := res_fields r @ [\<lparr>f_path = sp, f_type = type_name x, f_level = level\<rparr>]\<rparr>"
    have sp: "strict_prefix path sp" by (simp add: sp_def strict_prefix_def)
    show ?thesis
    proof (cases "is_container x")
      case False
      then show ?thesis using sp by (simp add: Cons list_branch_sample Let_def sp_def)
    next
      case True
      obtain new where new: "res_fields (analyze_json_structure x sp r1 (level + 1)) = res_fields r1 @ new"
        and pre: "list_all (\<lambda>f. strict_prefix sp (f_path f)) new"
        using JList.IH[of x sp r1 "level + 1"] by (auto simp: Cons sp_def)
      from pre have "list_all (\<lambda>f. strict_prefix path (f_path f)) new"
        unfolding sp_def by (auto simp: list_all_iff intro: strict_prefix_step)
      moreover have "analyze_json_structure (JList xs) path r level = analyze_json_structure x sp r1 (level + 1)"
        using True by (simp add: Cons list_branch_sample Let_def sp_def r1_def)
      ultimately show ?thesis
        using sp new by (intro exI[of _ "\<lparr>f_path = sp, f_type = type_name x, f_level = level\<rparr> # new"]) (simp add: r1_def)
    qed
  qed
qed simp_all

section \<open>Lists with at most one distinct value\<close>

lemma card_set_eq_1_iff:
  "xs \<noteq> [] \<Longrightarrow> card (set xs) = 1 \<longleftrightarrow> (\<forall>x \<in> set xs. \<forall>y \<in> set xs. x = y)"
proof
  assume ne: "xs \<noteq> []" and c: "card (set xs) = 1"
  then obtain a where "set xs = {a}" by (auto simp: card_1_singleton_iff)
  then show "\<forall>x \<in> set xs. \<forall>y \<in> set xs. x = y" by simp
next
  assume ne: "xs \<noteq> []" and eq: "\<forall>x \<in> set xs. \<forall>y \<in> set xs. x = y"
  from ne obtain a where a: "a \<in> set xs" by (cases xs) auto
  with eq have "set xs = {a}" by auto
  then show "card (set xs) = 1" by simp
qed



section \<open>Files that fail to load\<close>







section \<open>The index built by the folder loop\<close>

lemma getd_update: "getd (AList.update k v d) k' dflt = (if k' = k then v else getd d k' dflt)"
  by (simp add: getd_def update_conv')

lemma getd_absent: "map_of d k = None \<Longrightarrow> getd d k dflt = dflt"
  by (simp add: getd_def)

lemma record_field_keys:
  "fst ` set (record_field t fi ft) = insert (f_path fi) (fst ` set ft)"
  by (auto simp add: record_field_def Let_def dom_update)

lemma record_field_distinct:
  "distinct (map fst ft) \<Longrightarrow> distinct (map fst (record_field t fi ft))"
  by (simp add: record_field_def Let_def distinct_update)

lemma kinds_record_field_other:
  "p \<noteq> f_path fi \<Longrightarrow> kinds_at (record_field t fi ft) p = kinds_at ft p"
  by (simp add: kinds_at_def record_field_def Let_def getd_update)

lemma kinds_record_field_same:
  "set (kinds_at (record_field t fi ft) (f_path fi)) = insert (f_type fi) (set (kinds_at ft (f_path fi)))"
  by (auto simp add: kinds_at_def record_field_def Let_def getd_update getd_absent dom_update)

lemma kinds_record_field_same_distinct:
  "distinct (kinds_at ft (f_path fi)) \<Longrightarrow> distinct (kinds_at (record_field t fi ft) (f_path fi))"
  by (simp add: kinds_at_def record_field_def Let_def getd_update getd_absent distinct_update)

lemma kinds_record_field:
  "set (kinds_at (record_field t fi ft) p) =
     set (kinds_at ft p) \<union> (if f_path fi = p then {f_type fi} else {})"
proof (cases "p = f_path fi")
  case True
  then show ?thesis by (simp add: kinds_record_field_same)
next
  case False
  then show ?thesis by (auto simp add: kinds_record_field_other)
qed

lemma kinds_record_field_distinct:
  "distinct (kinds_at ft p) \<Longrightarrow> distinct (kinds_at (record_field t fi ft) p)"
proof (cases "p = f_path fi")
  case True
  assume "distinct (kinds_at ft p)"
  with True show ?thesis by (simp add: kinds_record_field_same_distinct)
next
  case False
  assume "distinct (kinds_at ft p)"
  with False show ?thesis by (simp add: kinds_record_field_other)
qed

lemma fold_record_field_keys:
  "fst ` set (fold (record_field t) fis ft) = fst ` set ft \<union> f_path ` set fis"
  by (induction fis arbitrary: ft) (simp_all add: record_field_keys Un_commute insert_commute)

lemma fold_record_field_distinct:
  "distinct (map fst ft) \<Longrightarrow> distinct (map fst (fold (record_field t) fis ft))"
  by (induction fis arbitrary: ft) (simp_all add: record_field_distinct)

lemma fold_record_field_kinds:
  "set (kinds_at (fold (record_field t) fis ft) p) =
     set (kinds_at ft p) \<union> set (map f_type (filter (\<lambda>fi. f_path fi = p) fis))"
proof (induction fis arbitrary: ft)
  case Nil
  then show ?case by simp
next
  case (Cons fi fis)
  have "set (kinds_at (fold (record_field t) (fi # fis) ft) p) =
          set (kinds_at (record_field t fi ft) p) \<union> set (map f_type (filter (\<lambda>fi. f_path fi = p) fis))"
    using Cons.IH[of "record_field t fi ft"] by simp
  also have "\<dots> = set (kinds_at ft p) \<union> set (map f_type (filter (\<lambda>fi. f_path fi = p) (fi # fis)))"
    unfolding kinds_record_field by (cases "f_path fi = p") auto
  finally show ?case .
qed

lemma fold_record_field_kinds_distinct:
  "distinct (kinds_at ft p) \<Longrightarrow> distinct (kinds_at (fold (record_field t) fis ft) p)"
  by (induction fis arbitrary: ft) (simp_all add: kinds_record_field_distinct)

lemma observations_Cons:
  "observations (jf # fs) =
     (case loaded jf of None \<Rightarrow> [] | Some data \<Rightarrow> res_fields (analyze_root data)) @ observations fs"
  by (simp add: observations_def)

lemma process_file_index:
  "field_types (process_file jf st) =
     fold (record_field (file_title jf))
          (case loaded jf of None \<Rightarrow> [] | Some data \<Rightarrow> res_fields (analyze_root data))
          (field_types st)"
  by (simp add: process_file_def split: option.split)

lemma fold_process_file_keys:
  "fst ` set (field_types (fold process_file fs st)) =
     fst ` set (field_types st) \<union> f_path ` set (observations fs)"
proof (induction fs arbitrary: st)
  case Nil
  then show ?case by (simp add: observations_def)
next
  case (Cons jf fs)
  show ?case
    using Cons.IH[of "process_file jf st"]
    by (simp add: process_file_index fold_record_field_keys observations_Cons image_Un Un_assoc)
qed

lemma fold_process_file_distinct:
  "distinct (map fst (field_types st)) \<Longrightarrow> distinct (map fst (field_types (fold process_file fs st)))"
  by (induction fs arbitrary: st) (simp_all add: process_file_index fold_record_field_distinct)

lemma observed_kinds_Cons:
  "observed_kinds (jf # fs) p =
     set (map f_type (filter (\<lambda>fi. f_path fi = p)
            (case loaded jf of None \<Rightarrow> [] | Some data \<Rightarrow> res_fields (analyze_root data))))
     \<union> observed_kinds fs p"
  by (simp add: observed_kinds_def observations_Cons)

lemma fold_process_file_kinds:
  "set (kinds_at (field_types (fold process_file fs st)) p) =
     set (kinds_at (field_types st) p) \<union> observed_kinds fs p"
proof (induction fs arbitrary: st)
  case Nil
  then show ?case by (simp add: observed_kinds_def observations_def)
next
  case (Cons jf fs)
  show ?case
    using Cons.IH[of "process_file jf st"]
    by (simp only: fold_simps process_file_index fold_record_field_kinds observed_kinds_Cons Un_assoc)
qed

lemma fold_process_file_kinds_distinct:
  "distinct (kinds_at (field_types st) p) \<Longrightarrow>
   distinct (kinds_at (field_types (fold process_file fs st)) p)"
  by (induction fs arbitrary: st) (simp_all add: process_file_index fold_record_field_kinds_distinct)

lemma index_of_batch:
  assumes "ft = field_types (fold process_file fs \<lparr>field_types = [], all_files = [], printed = ms\<rparr>)"
  shows "fst ` set ft = {p. observed_kinds fs p \<noteq> {}}"
    and "distinct (map fst ft)"
    and "length (getd ft p []) = card (observed_kinds fs p)"
proof -
  let ?st = "\<lparr>field_types = [], all_files = [], printed = ms\<rparr>"
  have "f_path ` set (observations fs) = {p. observed_kinds fs p \<noteq> {}}"
    by (auto simp add: observed_kinds_def filter_empty_conv)
  then show "fst ` set ft = {p. observed_kinds fs p \<noteq> {}}"
    unfolding assms fold_process_file_keys by simp
  show "distinct (map fst ft)"
    unfolding assms by (rule fold_process_file_distinct) simp
  have "kinds_at (field_types ?st) p = []"
    by (simp add: kinds_at_def getd_def)
  then have "set (kinds_at ft p) = observed_kinds fs p"
    and "distinct (kinds_at ft p)"
    unfolding assms by (simp_all add: fold_process_file_kinds fold_process_file_kinds_distinct)
  then have "length (kinds_at ft p) = card (observed_kinds fs p)"
    using distinct_card[of "kinds_at ft p"] by simp
  then show "length (getd ft p []) = card (observed_kinds fs p)"
    by (simp add: kinds_at_def)
qed

lemma inconsistent_fields_set:
  "distinct (map fst ft) \<Longrightarrow>
   set (inconsistent_fields ft) = {p \<in> fst ` set ft. length (getd ft p []) > 1}"
proof -
  assume d: "distinct (map fst ft)"
  have 1: "\<And>p tys. (p, tys) \<in> set ft \<Longrightarrow> getd ft p [] = tys"
    using d by (simp add: getd_def)
  have 2: "\<And>p. p \<in> fst ` set ft \<Longrightarrow> (p, getd ft p []) \<in> set ft"
    using d by (auto simp add: getd_def)
  show ?thesis
  proof (intro set_eqI iffI)
    fix p assume "p \<in> set (inconsistent_fields ft)"
    then obtain tys where "(p, tys) \<in> set ft" "length tys > 1"
      by (auto simp add: inconsistent_fields_def)
    with 1 show "p \<in> {p \<in> fst ` set ft. length (getd ft p []) > 1}" by force
  next
    fix p assume "p \<in> {p \<in> fst ` set ft. length (getd ft p []) > 1}"
    with 2 have "(p, getd ft p []) \<in> set ft" "length (getd ft p []) > 1" by simp_all
    then show "p \<in> set (inconsistent_fields ft)"
      by (force simp add: inconsistent_fields_def)
  qed
qed







section \<open>Properties of the walk\<close>

text \<open>
  C2 (as amended). The depth reported by the walk started with the default arguments is the
  nesting depth along the places the walk visits, \<^const>\<open>walk_depth\<close>: every container entered
  from a mapping value or from the first element of a sequence lies one level below the
  container holding it, and elements of a sequence after the first are not visited. For a tree
  without sequences this is the number of mapping boundaries crossed, \<^const>\<open>mapping_depth\<close>.
\<close>

theorem max_level_is_walk_depth:
  "max_level (analyze_root data) = walk_depth data \<and>
   (list_free data \<longrightarrow> max_level (analyze_root data) = mapping_depth data)"
  by (simp add: analyze_root_def max_level_general new_result_def list_free_depth)

text \<open>The mapping holding a mapping under the key a, a tree without sequences, has depth 1.\<close>

theorem max_level_is_walk_depth_witness:
  "list_free (JDict [(''a'', JDict [(''b'', JInt 1)])]) \<and>
   max_level (analyze_root (JDict [(''a'', JDict [(''b'', JInt 1)])])) = 1 \<and>
   mapping_depth (JDict [(''a'', JDict [(''b'', JInt 1)])]) = 1"
proof -
  have lf: "list_free (JDict [(''a'', JDict [(''b'', JInt 1)])])" by simp
  have md: "mapping_depth (JDict [(''a'', JDict [(''b'', JInt 1)])]) = 1" by simp
  show ?thesis
    using max_level_is_walk_depth [of "JDict [(''a'', JDict [(''b'', JInt 1)])]"] lf md by simp
qed

text \<open>
  C2 as stated fails: for a sequence whose only element is the sequence holding the integer 1,
  the walk reports depth 1 although the tree has no mapping at all.
\<close>

theorem sequence_depth_counterexample:
  "max_level (analyze_root (JList [JList [JInt 1]])) = 1 \<and>
   mapping_depth (JList [JList [JInt 1]]) = 0"
  by code_simp

text \<open>
  C8. For a root that is neither a mapping nor a sequence the walk returns the summary with no
  observations, no kind counts and depth 0. In the folder loop such a document is recorded as
  analysed and leaves the field index as it was; in the structure comparison it contributes
  the depth 0 and the count 0 for every kind.
\<close>

theorem scalar_root_summary:
  "\<not> is_container data \<Longrightarrow>
     analyze_root data = \<lparr>res_fields = [], res_types = [], max_level = 0\<rparr> \<and>
     process_file \<lparr>file_name = n, file_title = t, loaded = Some data\<rparr> st =
       \<lparr>field_types = field_types st, all_files = all_files st @ [t],
        printed = printed st @ [Analyzed n]\<rparr> \<and>
     max_levels ((t, analyze_root data) # rs) = (t, 0) # max_levels rs \<and>
     type_counts ((t, analyze_root data) # rs) k = (t, 0) # type_counts rs k"
proof -
  assume "\<not> is_container data"
  then have "analyze_root data = \<lparr>res_fields = [], res_types = [], max_level = 0\<rparr>"
    by (cases data) (simp_all add: analyze_root_def new_result_def)
  then show ?thesis
    by (simp add: process_file_def max_levels_def type_counts_def type_stats_def getd_def)
qed

text \<open>
  A string root next to a mapping root: the summary of the string is empty, and the difference
  shows in the comparison of the two, in the depths and in the count of the kind dict.
\<close>

theorem scalar_root_summary_witness:
  "\<not> is_container (JStr ''x'') \<and>
   analyze_root (JStr ''x'') = \<lparr>res_fields = [], res_types = [], max_level = 0\<rparr> \<and>
   analyze_consistency [(''m'', analyze_root (JDict [(''k'', JDict [])])), (''s'', analyze_root (JStr ''x''))] =
     Consistency_Report
       \<lparr>n_files = 2, levels_consistent = False, common_level = None,
        per_file_levels = [(''m'', 1), (''s'', 0)],
        type_rows = [(''dict'', False, [(''m'', 1), (''s'', 0)])],
        fully_consistent = False\<rparr>"
proof -
  have nc: "\<not> is_container (JStr ''x'')" by simp
  have s: "analyze_root (JStr ''x'') = \<lparr>res_fields = [], res_types = [], max_level = 0\<rparr>"
    using scalar_root_summary [OF nc] by simp
  have "analyze_consistency [(''m'', analyze_root (JDict [(''k'', JDict [])])), (''s'', analyze_root (JStr ''x''))] =
     Consistency_Report
       \<lparr>n_files = 2, levels_consistent = False, common_level = None,
        per_file_levels = [(''m'', 1), (''s'', 0)],
        type_rows = [(''dict'', False, [(''m'', 1), (''s'', 0)])],
        fully_consistent = False\<rparr>"
    by code_simp
  with nc s show ?thesis by simp
qed

text \<open>
  C9. With an empty field index the field report is the fixed report for no field
  information, with no results the structure comparison is the fixed report for no results,
  and a folder without files prints one line and writes nothing.
\<close>

theorem empty_batch_reports:
  "generate_field_consistency_report [] files = No_Field_Info \<and>
   analyze_consistency [] = No_Results \<and>
   analys_json_folder [] = \<lparr>messages = [No_Json_Found], written = None\<rparr>"
  by (simp add: generate_field_consistency_report_def analyze_consistency_def analys_json_folder_def)

text \<open>
  C1. The scenario with the documents A and B: the two walks, the field report of the folder
  holding both, and the structure comparison of the two walk results. The paths a, b and b[0]
  are consistent, b[0].c is not (str in A, int in B); both depths are 2, so the levels are
  consistent; the kind str (1 in A, 0 in B) and the kind int (1 in A, 2 in B) are not.
\<close>

theorem scenario_A_B:
  "analyze_root doc_A =
     \<lparr>res_fields =
        [\<lparr>f_path = ''a'', f_type = ''int'', f_level = 0\<rparr>,
         \<lparr>f_path = ''b'', f_type = ''list'', f_level = 0\<rparr>,
         \<lparr>f_path = ''b[0]'', f_type = ''dict'', f_level = 1\<rparr>,
         \<lparr>f_path = ''b[0].c'', f_type = ''str'', f_level = 2\<rparr>],
      res_types = [(''int'', 1), (''list'', 2), (''str'', 1)], max_level = 2\<rparr> \<and>
   analyze_root doc_B =
     \<lparr>res_fields =
        [\<lparr>f_path = ''a'', f_type = ''int'', f_level = 0\<rparr>,
         \<lparr>f_path = ''b'', f_type = ''list'', f_level = 0\<rparr>,
         \<lparr>f_path = ''b[0]'', f_type = ''dict'', f_level = 1\<rparr>,
         \<lparr>f_path = ''b[0].c'', f_type = ''int'', f_level = 2\<rparr>],
      res_types = [(''int'', 2), (''list'', 2)], max_level = 2\<rparr> \<and>
   written (analys_json_folder
      [\<lparr>file_name = ''A.json'', file_title = ''A'', loaded = Some doc_A\<rparr>,
       \<lparr>file_name = ''B.json'', file_title = ''B'', loaded = Some doc_B\<rparr>]) =
     Some (Field_Report
       \<lparr>total_files = 2, total_fields = 4, consistent_count = 3, inconsistent_count = 1,
        rows =
          [\<lparr>row_level = 0, row_path = ''a'', row_type_info = [''int''],
            row_is_consistent = True, row_file_info = All_Files 2\<rparr>,
           \<lparr>row_level = 0, row_path = ''b'', row_type_info = [''list''],
            row_is_consistent = True, row_file_info = All_Files 2\<rparr>,
           \<lparr>row_level = 0, row_path = ''b[0]'', row_type_info = [''dict''],
            row_is_consistent = True, row_file_info = All_Files 2\<rparr>,
           \<lparr>row_level = 1, row_path = ''b[0].c'', row_type_info = [''str'', ''int''],
            row_is_consistent = False,
            row_file_info = Per_Type [(''str'', [''A''], 1), (''int'', [''B''], 1)]\<rparr>],
        details =
          [\<lparr>detail_path = ''b[0].c'', detail_level = 1,
            detail_types = [(''str'', [''A'']), (''int'', [''B''])]\<rparr>]\<rparr>) \<and>
   analyze_consistency [(''A'', analyze_root doc_A), (''B'', analyze_root doc_B)] =
     Consistency_Report
       \<lparr>n_files = 2, levels_consistent = True, common_level = Some 2,
        per_file_levels = [(''A'', 2), (''B'', 2)],
        type_rows =
          [(''int'', False, [(''A'', 1), (''B'', 2)]),
           (''list'', True, [(''A'', 2), (''B'', 2)]),
           (''str'', False, [(''A'', 1), (''B'', 0)])],
        fully_consistent = False\<rparr>"
  by code_simp

text \<open>
  C6. The call on an empty sequence appends no observation and raises the count of the kind
  list by one. The call on a non-empty sequence does not depend on the elements after the
  first; it raises the number of observations at the path with the suffix [0] by exactly one;
  and it is the continuation from a state \<open>r1\<close> that differs from the state at entry by the one
  observation for the first element and the one increment of the kind list: \<open>r1\<close> itself when
  the first element is a scalar, the nested call on the first element otherwise.
\<close>

theorem sequence_branch_observations:
  "res_fields (analyze_json_structure (JList []) path r level) = res_fields r \<and>
   getd (res_types (analyze_json_structure (JList []) path r level)) ''list'' 0 =
     getd (res_types r) ''list'' 0 + 1 \<and>
   analyze_json_structure (JList (x # xs)) path r level =
     analyze_json_structure (JList [x]) path r level \<and>
   length (filter (\<lambda>f. f_path f = path @ ''[0]'')
             (res_fields (analyze_json_structure (JList (x # xs)) path r level))) =
     length (filter (\<lambda>f. f_path f = path @ ''[0]'') (res_fields r)) + 1 \<and>
   (\<exists>r1. res_fields r1 =
            res_fields r @ [\<lparr>f_path = path @ ''[0]'', f_type = type_name x, f_level = level\<rparr>] \<and>
         res_types r1 = incr ''list'' (res_types r) \<and>
         getd (res_types r1) ''list'' 0 = getd (res_types r) ''list'' 0 + 1 \<and>
         analyze_json_structure (JList (x # xs)) path r level =
           (if is_container x then analyze_json_structure x (path @ ''[0]'') r1 (level + 1) else r1))"
proof -
  define sp where "sp = path @ ''[0]''"
  define r1 where "r1 = r\<lparr>max_level := max (max_level r) level,
                 res_types := incr ''list'' (res_types r),
                 res_fields := res_fields r @ [\<lparr>f_path = sp, f_type = type_name x, f_level = level\<rparr>]\<rparr>"
  have step: "analyze_json_structure (JList (x # xs)) path r level =
           (if is_container x then analyze_json_structure x sp r1 (level + 1) else r1)"
    by (cases "is_container x") (simp_all add: Let_def sp_def r1_def)
  have empty: "res_fields (analyze_json_structure (JList []) path r level) = res_fields r \<and>
     getd (res_types (analyze_json_structure (JList []) path r level)) ''list'' 0 =
     getd (res_types r) ''list'' 0 + 1"
    by (simp add: getd_incr_same)
  have indep: "analyze_json_structure (JList (x # xs)) path r level =
     analyze_json_structure (JList [x]) path r level"
    by (simp add: list_branch_sample)
  obtain new where new: "res_fields (analyze_json_structure x sp r1 (level + 1)) = res_fields r1 @ new"
    and pre: "list_all (\<lambda>f. strict_prefix sp (f_path f)) new"
    using walk_fields[of x sp r1 "level + 1"] by (auto simp: sp_def)
  from pre have none: "filter (\<lambda>f. f_path f = sp) new = []"
    by (auto simp: list_all_iff filter_empty_conv)
  have count: "length (filter (\<lambda>f. f_path f = sp)
             (res_fields (analyze_json_structure (JList (x # xs)) path r level))) =
     length (filter (\<lambda>f. f_path f = sp) (res_fields r)) + 1"
    unfolding step using new none by (simp add: r1_def)
  have ex: "\<exists>r1. res_fields r1 =
            res_fields r @ [\<lparr>f_path = sp, f_type = type_name x, f_level = level\<rparr>] \<and>
         res_types r1 = incr ''list'' (res_types r) \<and>
         getd (res_types r1) ''list'' 0 = getd (res_types r) ''list'' 0 + 1 \<and>
         analyze_json_structure (JList (x # xs)) path r level =
           (if is_container x then analyze_json_structure x sp r1 (level + 1) else r1)"
  proof (intro exI[of _ r1] conjI)
    show "res_fields r1 = res_fields r @ [\<lparr>f_path = sp, f_type = type_name x, f_level = level\<rparr>]"
      by (simp add: r1_def)
    show "res_types r1 = incr ''list'' (res_types r)"
      by (simp add: r1_def)
    show "getd (res_types r1) ''list'' 0 = getd (res_types r) ''list'' 0 + 1"
      by (simp add: r1_def getd_incr_same)
    show "analyze_json_structure (JList (x # xs)) path r level =
           (if is_container x then analyze_json_structure x sp r1 (level + 1) else r1)"
      by (rule step)
  qed
  show ?thesis
    using empty indep count ex unfolding sp_def by blast
qed

text \<open>
  C7. In the call on a non-empty sequence the state \<open>r1\<close> after the observation for the first
  element has only the increment of the kind list: the count of the element's own kind is
  what it was at entry. For a scalar first element the call returns with that count
  unchanged and one more observation of that kind. In the walk of the mapping with the key b
  holding a sequence of one mapping with the key c, there is an observation of kind dict at
  b[0] and no count for dict at all.
\<close>

theorem sample_kind_not_counted:
  "(\<exists>r1. res_fields r1 =
            res_fields r @ [\<lparr>f_path = path @ ''[0]'', f_type = type_name x, f_level = level\<rparr>] \<and>
         res_types r1 = incr ''list'' (res_types r) \<and>
         (type_name x \<noteq> ''list'' \<longrightarrow>
            getd (res_types r1) (type_name x) 0 = getd (res_types r) (type_name x) 0) \<and>
         analyze_json_structure (JList (x # xs)) path r level =
           (if is_container x then analyze_json_structure x (path @ ''[0]'') r1 (level + 1) else r1)) \<and>
   (\<not> is_container x \<longrightarrow>
      getd (res_types (analyze_json_structure (JList (x # xs)) path r level)) (type_name x) 0 =
        getd (res_types r) (type_name x) 0 \<and>
      length (filter (\<lambda>f. f_type f = type_name x)
                (res_fields (analyze_json_structure (JList (x # xs)) path r level))) =
        length (filter (\<lambda>f. f_type f = type_name x) (res_fields r)) + 1) \<and>
   analyze_root (JDict [(''b'', JList [JDict [(''c'', JInt 1)]])]) =
     \<lparr>res_fields =
        [\<lparr>f_path = ''b'', f_type = ''list'', f_level = 0\<rparr>,
         \<lparr>f_path = ''b[0]'', f_type = ''dict'', f_level = 1\<rparr>,
         \<lparr>f_path = ''b[0].c'', f_type = ''int'', f_level = 2\<rparr>],
      res_types = [(''list'', 2), (''int'', 1)], max_level = 2\<rparr> \<and>
   map_of (res_types (analyze_root (JDict [(''b'', JList [JDict [(''c'', JInt 1)]])]))) ''dict'' = None \<and>
   getd (res_types (analyze_root (JDict [(''b'', JList [JDict [(''c'', JInt 1)]])]))) ''dict'' 0 <
     length (filter (\<lambda>f. f_type f = ''dict'')
               (res_fields (analyze_root (JDict [(''b'', JList [JDict [(''c'', JInt 1)]])]))))"
proof -
  define r1 where "r1 = r\<lparr>max_level := max (max_level r) level,
                 res_types := incr ''list'' (res_types r),
                 res_fields := res_fields r @
                   [\<lparr>f_path = path @ ''[0]'', f_type = type_name x, f_level = level\<rparr>]\<rparr>"
  have step: "analyze_json_structure (JList (x # xs)) path r level =
           (if is_container x then analyze_json_structure x (path @ ''[0]'') r1 (level + 1) else r1)"
    by (cases "is_container x") (simp_all add: Let_def r1_def)
  have ex: "\<exists>r1. res_fields r1 =
            res_fields r @ [\<lparr>f_path = path @ ''[0]'', f_type = type_name x, f_level = level\<rparr>] \<and>
         res_types r1 = incr ''list'' (res_types r) \<and>
         (type_name x \<noteq> ''list'' \<longrightarrow>
            getd (res_types r1) (type_name x) 0 = getd (res_types r) (type_name x) 0) \<and>
         analyze_json_structure (JList (x # xs)) path r level =
           (if is_container x then analyze_json_structure x (path @ ''[0]'') r1 (level + 1) else r1)"
  proof (intro exI[of _ r1] conjI)
    show "res_fields r1 =
            res_fields r @ [\<lparr>f_path = path @ ''[0]'', f_type = type_name x, f_level = level\<rparr>]"
      by (simp add: r1_def)
    show "res_types r1 = incr ''list'' (res_types r)"
      by (simp add: r1_def)
    show "type_name x \<noteq> ''list'' \<longrightarrow>
            getd (res_types r1) (type_name x) 0 = getd (res_types r) (type_name x) 0"
      by (simp add: r1_def getd_incr_other)
    show "analyze_json_structure (JList (x # xs)) path r level =
           (if is_container x then analyze_json_structure x (path @ ''[0]'') r1 (level + 1) else r1)"
      by (rule step)
  qed
  have scalar: "\<not> is_container x \<longrightarrow>
      getd (res_types (analyze_json_structure (JList (x # xs)) path r level)) (type_name x) 0 =
        getd (res_types r) (type_name x) 0 \<and>
      length (filter (\<lambda>f. f_type f = type_name x)
                (res_fields (analyze_json_structure (JList (x # xs)) path r level))) =
        length (filter (\<lambda>f. f_type f = type_name x) (res_fields r)) + 1"
  proof
    assume nc: "\<not> is_container x"
    then have "type_name x \<noteq> ''list''" by (cases x) simp_all
    with nc show "getd (res_types (analyze_json_structure (JList (x # xs)) path r level)) (type_name x) 0 =
        getd (res_types r) (type_name x) 0 \<and>
      length (filter (\<lambda>f. f_type f = type_name x)
                (res_fields (analyze_json_structure (JList (x # xs)) path r level))) =
        length (filter (\<lambda>f. f_type f = type_name x) (res_fields r)) + 1"
      unfolding step by (simp add: r1_def getd_incr_other)
  qed
  have example: "analyze_root (JDict [(''b'', JList [JDict [(''c'', JInt 1)]])]) =
     \<lparr>res_fields =
        [\<lparr>f_path = ''b'', f_type = ''list'', f_level = 0\<rparr>,
         \<lparr>f_path = ''b[0]'', f_type = ''dict'', f_level = 1\<rparr>,
         \<lparr>f_path = ''b[0].c'', f_type = ''int'', f_level = 2\<rparr>],
      res_types = [(''list'', 2), (''int'', 1)], max_level = 2\<rparr>"
    by code_simp
  have consequence: "map_of (res_types (analyze_root (JDict [(''b'', JList [JDict [(''c'', JInt 1)]])]))) ''dict'' = None \<and>
   getd (res_types (analyze_root (JDict [(''b'', JList [JDict [(''c'', JInt 1)]])]))) ''dict'' 0 <
     length (filter (\<lambda>f. f_type f = ''dict'')
               (res_fields (analyze_root (JDict [(''b'', JList [JDict [(''c'', JInt 1)]])]))))"
    unfolding example by (simp add: getd_def)
  show ?thesis
    using ex scalar example consequence by blast
qed

text \<open>A sequence holding one string, walked from the fresh result.\<close>

theorem sample_kind_not_counted_witness:
  "\<not> is_container (JStr ''s'') \<and>
   getd (res_types (analyze_json_structure (JList [JStr ''s'']) ''k'' new_result 0)) ''str'' 0 = 0 \<and>
   length (filter (\<lambda>f. f_type f = ''str'')
             (res_fields (analyze_json_structure (JList [JStr ''s'']) ''k'' new_result 0))) = 1"
proof -
  have nc: "\<not> is_container (JStr ''s'')" by simp
  have z: "getd (res_types new_result) ''str'' 0 = 0 \<and>
           length (filter (\<lambda>f. f_type f = ''str'') (res_fields new_result)) = 0"
    by (simp add: new_result_def getd_def)
  show ?thesis
    using sample_kind_not_counted [of new_result "''k''" "JStr ''s''" 0 "[]"] nc z by simp
qed

section \<open>Properties of the structure comparison\<close>

text \<open>
  C5. For a non-empty batch the comparison yields a report whose level flag holds exactly
  when all depths are equal; for a batch of one document the flag holds.
\<close>

theorem levels_consistent_iff:
  "rs \<noteq> [] \<Longrightarrow>
     (\<exists>s. analyze_consistency rs = Consistency_Report s \<and>
          (levels_consistent s \<longleftrightarrow>
             (\<forall>r1 \<in> snd ` set rs. \<forall>r2 \<in> snd ` set rs. max_level r1 = max_level r2))) \<and>
     (\<exists>s. analyze_consistency [(file, r)] = Consistency_Report s \<and> levels_consistent s)"
proof -
  assume ne: "rs \<noteq> []"
  have m: "map snd (max_levels rs) = map (max_level \<circ> snd) rs" for rs :: all_results
    by (simp add: max_levels_def case_prod_beta comp_def)
  have "is_level_consistent rs \<longleftrightarrow>
          (\<forall>r1 \<in> snd ` set rs. \<forall>r2 \<in> snd ` set rs. max_level r1 = max_level r2)"
    unfolding is_level_consistent_def m using ne
    by (subst card_set_eq_1_iff) auto
  moreover have "is_level_consistent [(file, r)]"
    by (simp add: is_level_consistent_def max_levels_def)
  ultimately show ?thesis using ne
    by (simp add: analyze_consistency_def)
qed

text \<open>The document A (depth 2) next to an integer root (depth 0).\<close>

theorem levels_consistent_iff_witness:
  "[(''A'', analyze_root doc_A), (''B'', analyze_root (JInt 0))] \<noteq> [] \<and>
   (\<exists>s. analyze_consistency [(''A'', analyze_root doc_A), (''B'', analyze_root (JInt 0))] = Consistency_Report s \<and>
        \<not> levels_consistent s) \<and>
   max_level (analyze_root doc_A) \<noteq> max_level (analyze_root (JInt 0))"
proof -
  have ne: "[(''A'', analyze_root doc_A), (''B'', analyze_root (JInt 0))] \<noteq> []" by simp
  have d: "max_level (analyze_root doc_A) \<noteq> max_level (analyze_root (JInt 0))" by code_simp
  show ?thesis
    using levels_consistent_iff [OF ne, of "''A''" "analyze_root doc_A"] d by auto
qed



section \<open>Properties of the folder loop\<close>

text \<open>
  C3. When the folder function writes a report with rows, a row is marked consistent exactly
  when one kind was observed for its path in the whole batch, however many documents hold the
  path; the rows are the observed paths, and the detail sections are the paths with more
  than one observed kind.
\<close>

theorem path_consistency:
  "written (analys_json_folder json_files) = Some (Field_Report rep) \<Longrightarrow>
     (\<forall>row \<in> set (rows rep).
        row_is_consistent row = (card (observed_kinds json_files (row_path row)) = 1)) \<and>
     set (map row_path (rows rep)) = {p. observed_kinds json_files p \<noteq> {}} \<and>
     set (map detail_path (details rep)) = {p. card (observed_kinds json_files p) > 1}"
proof -
  assume w: "written (analys_json_folder json_files) = Some (Field_Report rep)"
  define st where "st = fold process_file json_files
      \<lparr>field_types = [], all_files = [], printed = [Found_Files (length json_files)]\<rparr>"
  define ft where "ft = field_types st"
  define n where "n = length (all_files st)"
  have ne: "json_files \<noteq> []"
    using w by (auto simp add: analys_json_folder_def)
  then have gen: "generate_field_consistency_report ft (all_files st) = Field_Report rep"
    using w by (simp add: analys_json_folder_def Let_def st_def ft_def)
  then have rows: "rows rep = map (make_row ft n) (sort (map fst ft))"
    and dets: "details rep = map (make_detail ft) (inconsistent_fields ft)"
    by (auto simp add: generate_field_consistency_report_def n_def split: if_splits)
  have ftdef: "ft = field_types (fold process_file json_files
      \<lparr>field_types = [], all_files = [], printed = [Found_Files (length json_files)]\<rparr>)"
    by (simp add: ft_def st_def)
  note idx = index_of_batch[OF ftdef]
  have path: "row_path (make_row ft n p) = p" for p
    by (simp add: make_row_def Let_def)
  have cons: "row_is_consistent (make_row ft n p) = (card (observed_kinds json_files p) = 1)" for p
    using idx(3)[of p] by (simp add: make_row_def Let_def)
  have a: "\<forall>row \<in> set (rows rep).
        row_is_consistent row = (card (observed_kinds json_files (row_path row)) = 1)"
    unfolding rows by (auto simp add: path cons)
  have b: "set (map row_path (rows rep)) = {p. observed_kinds json_files p \<noteq> {}}"
    unfolding rows using idx(1) by (simp add: comp_def path)
  have "set (map detail_path (details rep)) = set (inconsistent_fields ft)"
    unfolding dets by (simp add: comp_def make_detail_def)
  also have "\<dots> = {p \<in> fst ` set ft. length (getd ft p []) > 1}"
    using idx(2) by (rule inconsistent_fields_set)
  also have "\<dots> = {p. card (observed_kinds json_files p) > 1}"
    unfolding idx(1) idx(3) by auto
  finally show ?thesis using a b by blast
qed

text \<open>The scenario with the documents A and B: the path a has one kind, the path b[0].c has not.\<close>

theorem path_consistency_witness:
  "written (analys_json_folder
      [\<lparr>file_name = ''A.json'', file_title = ''A'', loaded = Some doc_A\<rparr>,
       \<lparr>file_name = ''B.json'', file_title = ''B'', loaded = Some doc_B\<rparr>]) =
     Some (Field_Report
       \<lparr>total_files = 2, total_fields = 4, consistent_count = 3, inconsistent_count = 1,
        rows =
          [\<lparr>row_level = 0, row_path = ''a'', row_type_info = [''int''],
            row_is_consistent = True, row_file_info = All_Files 2\<rparr>,
           \<lparr>row_level = 0, row_path = ''b'', row_type_info = [''list''],
            row_is_consistent = True, row_file_info = All_Files 2\<rparr>,
           \<lparr>row_level = 0, row_path = ''b[0]'', row_type_info = [''dict''],
            row_is_consistent = True, row_file_info = All_Files 2\<rparr>,
           \<lparr>row_level = 1, row_path = ''b[0].c'', row_type_info = [''str'', ''int''],
            row_is_consistent = False,
            row_file_info = Per_Type [(''str'', [''A''], 1), (''int'', [''B''], 1)]\<rparr>],
        details =
          [\<lparr>detail_path = ''b[0].c'', detail_level = 1,
            detail_types = [(''str'', [''A'']), (''int'', [''B''])]\<rparr>]\<rparr>) \<and>
   card (observed_kinds
      [\<lparr>file_name = ''A.json'', file_title = ''A'', loaded = Some doc_A\<rparr>,
       \<lparr>file_name = ''B.json'', file_title = ''B'', loaded = Some doc_B\<rparr>] ''a'') = 1 \<and>
   card (observed_kinds
      [\<lparr>file_name = ''A.json'', file_title = ''A'', loaded = Some doc_A\<rparr>,
       \<lparr>file_name = ''B.json'', file_title = ''B'', loaded = Some doc_B\<rparr>] ''b[0].c'') \<noteq> 1"
proof -
  let ?batch = "[\<lparr>file_name = ''A.json'', file_title = ''A'', loaded = Some doc_A\<rparr>,
       \<lparr>file_name = ''B.json'', file_title = ''B'', loaded = Some doc_B\<rparr>]"
  let ?rep = "\<lparr>total_files = 2, total_fields = 4, consistent_count = 3, inconsistent_count = 1,
        rows =
          [\<lparr>row_level = 0, row_path = ''a'', row_type_info = [''int''],
            row_is_consistent = True, row_file_info = All_Files 2\<rparr>,
           \<lparr>row_level = 0, row_path = ''b'', row_type_info = [''list''],
            row_is_consistent = True, row_file_info = All_Files 2\<rparr>,
           \<lparr>row_level = 0, row_path = ''b[0]'', row_type_info = [''dict''],
            row_is_consistent = True, row_file_info = All_Files 2\<rparr>,
           \<lparr>row_level = 1, row_path = ''b[0].c'', row_type_info = [''str'', ''int''],
            row_is_consistent = False,
            row_file_info = Per_Type [(''str'', [''A''], 1), (''int'', [''B''], 1)]\<rparr>],
        details =
          [\<lparr>detail_path = ''b[0].c'', detail_level = 1,
            detail_types = [(''str'', [''A'']), (''int'', [''B''])]\<rparr>]\<rparr>"
  have w: "written (analys_json_folder ?batch) = Some (Field_Report ?rep)"
    by code_simp
  from path_consistency [OF w]
  have "\<forall>row \<in> set (rows ?rep).
          row_is_consistent row = (card (observed_kinds ?batch (row_path row)) = 1)"
    by (rule conjunct1)
  then have "card (observed_kinds ?batch ''a'') = 1 \<and> card (observed_kinds ?batch ''b[0].c'') \<noteq> 1"
    by simp
  with w show ?thesis by (rule conjI)
qed



end
